theory Spec2Isabelle
  imports Main "HOL-Library.Word"
begin

section \<open>Strings and the Unicode tables behind \<^verbatim>\<open>slugify\<close>\<close>

text \<open>
  A Python \<^verbatim>\<open>str\<close> is a sequence of code points, a \<^verbatim>\<open>bytes\<close> object a sequence of
  octets. \<open>ascii\<close> writes an ASCII literal as code points.
\<close>

type_synonym str = "nat list"
type_synonym bytes = "8 word list"

definition ascii :: "string \<Rightarrow> str" where
  "ascii s = map of_char s"

definition is_ascii :: "str \<Rightarrow> bool" where
  "is_ascii s = list_all (\<lambda>c. c < 128) s"

text \<open>
  \<^verbatim>\<open>slugify\<close> calls \<^verbatim>\<open>unicodedata.normalize\<close>, \<^verbatim>\<open>str.lower\<close> and the classes
  \<^verbatim>\<open>\w\<close> and \<^verbatim>\<open>\s\<close> of \<^verbatim>\<open>re\<close>. On ASCII all four are fixed and written out below;
  beyond ASCII they read the Unicode character database, which is a parameter of the
  model: the two normalisation forms and the lower-casing of strings that hold a
  non-ASCII code point, and the predicates \<^verbatim>\<open>isalnum\<close> and \<^verbatim>\<open>isspace\<close> on non-ASCII
  code points.
\<close>

record ucd =
  ucd_nfkc :: "str \<Rightarrow> str"
  ucd_nfkd :: "str \<Rightarrow> str"
  ucd_lower :: "str \<Rightarrow> str"
  ucd_isalnum :: "nat \<Rightarrow> bool"
  ucd_isspace :: "nat \<Rightarrow> bool"

datatype form = NFKC | NFKD

text \<open>\<^verbatim>\<open>unicodedata.normalize(form, s)\<close>: an ASCII string is in every normal form.\<close>

definition normalize :: "ucd \<Rightarrow> form \<Rightarrow> str \<Rightarrow> str" where
  "normalize U f s =
     (if is_ascii s then s
      else (case f of NFKC \<Rightarrow> ucd_nfkc U s | NFKD \<Rightarrow> ucd_nfkd U s))"

text \<open>\<^verbatim>\<open>.encode("ascii", "ignore").decode("ascii")\<close> drops every non-ASCII code point.\<close>

definition encode_ascii_ignore :: "str \<Rightarrow> str" where
  "encode_ascii_ignore s = filter (\<lambda>c. c < 128) s"

definition ascii_lower :: "nat \<Rightarrow> nat" where
  "ascii_lower c = (if 65 \<le> c \<and> c \<le> 90 then c + 32 else c)"

text \<open>\<^verbatim>\<open>s.lower()\<close>: on an ASCII string, A-Z go to a-z and nothing else changes.\<close>

definition str_lower :: "ucd \<Rightarrow> str \<Rightarrow> str" where
  "str_lower U s = (if is_ascii s then map ascii_lower s else ucd_lower U s)"

text \<open>
  The class \<^verbatim>\<open>\w\<close> of a \<^verbatim>\<open>str\<close> pattern: alphanumerics and the underscore (95).
  On ASCII: 0-9, A-Z, a-z and the underscore.
\<close>

definition is_word :: "ucd \<Rightarrow> nat \<Rightarrow> bool" where
  "is_word U c =
     (if c < 128
      then (48 \<le> c \<and> c \<le> 57) \<or> (65 \<le> c \<and> c \<le> 90) \<or> (97 \<le> c \<and> c \<le> 122) \<or> c = 95
      else ucd_isalnum U c)"

text \<open>
  The class \<^verbatim>\<open>\s\<close> of a \<^verbatim>\<open>str\<close> pattern. On ASCII: tab, line feed, vertical tab,
  form feed, carriage return (9-13), the four separators 28-31 and the space (32).
\<close>

definition is_space :: "ucd \<Rightarrow> nat \<Rightarrow> bool" where
  "is_space U c =
     (if c < 128 then (9 \<le> c \<and> c \<le> 13) \<or> (28 \<le> c \<and> c \<le> 31) \<or> c = 32
      else ucd_isspace U c)"

section \<open>\<^verbatim>\<open>slugify\<close>\<close>

text \<open>\<^verbatim>\<open>re.sub(r"[^\w\s-]", "", v)\<close>: keep word characters, whitespace and the hyphen (45).\<close>

definition sub_not_word_space_hyphen :: "ucd \<Rightarrow> str \<Rightarrow> str" where
  "sub_not_word_space_hyphen U v = filter (\<lambda>c. is_word U c \<or> is_space U c \<or> c = 45) v"

definition hyphen_or_space :: "ucd \<Rightarrow> nat \<Rightarrow> bool" where
  "hyphen_or_space U c = (c = 45 \<or> is_space U c)"

text \<open>
  \<^verbatim>\<open>re.sub(r"[-\s]+", "-", v)\<close>: every maximal run of hyphens and whitespace becomes
  one hyphen.
\<close>

function sub_hyphen_space_runs :: "ucd \<Rightarrow> str \<Rightarrow> str" where
  "sub_hyphen_space_runs U [] = []"
| "sub_hyphen_space_runs U (c # cs) =
     (if hyphen_or_space U c
      then 45 # sub_hyphen_space_runs U (dropWhile (hyphen_or_space U) cs)
      else c # sub_hyphen_space_runs U cs)"
  by pat_completeness auto
termination
  by (relation "measure (\<lambda>(U, v). length v)")
     (auto simp: le_imp_less_Suc length_dropWhile_le)

text \<open>\<^verbatim>\<open>s.strip(chars)\<close>: drop the code points of \<open>chars\<close> from both ends.\<close>

definition strip :: "str \<Rightarrow> str \<Rightarrow> str" where
  "strip chars s =
     rev (dropWhile (\<lambda>c. c \<in> set chars) (rev (dropWhile (\<lambda>c. c \<in> set chars) s)))"

definition slugify :: "ucd \<Rightarrow> str \<Rightarrow> bool \<Rightarrow> str" where
  "slugify U v allow_unicode =
     (let v1 = (if allow_unicode then normalize U NFKC v
                else encode_ascii_ignore (normalize U NFKD v));
          v2 = sub_not_word_space_hyphen U (str_lower U v1)
      in strip [45, 95] (sub_hyphen_space_runs U v2))"

text \<open>Lower-case ASCII alphanumerics: 0-9 and a-z.\<close>

definition lower_alnum :: "nat \<Rightarrow> bool" where
  "lower_alnum c = ((48 \<le> c \<and> c \<le> 57) \<or> (97 \<le> c \<and> c \<le> 122))"

subsection \<open>The tables on ASCII and Hangul\<close>

text \<open>
  An instance of the tables that is exact on strings of ASCII and Hangul code points
  (the jamo block 0x1100-0x11FF and the syllables 0xAC00-0xD7A3), where the Unicode
  standard gives normalisation by arithmetic: a syllable decomposes into its leading
  consonant, vowel and optional trailing consonant, and composition puts adjacent jamo
  back together. Hangul has no case, every Hangul code point is a letter, none is
  whitespace. Code points outside this range are left as they are.
\<close>

definition SBase :: nat where "SBase = 44032"
definition LBase :: nat where "LBase = 4352"
definition VBase :: nat where "VBase = 4449"
definition TBase :: nat where "TBase = 4519"
definition LCount :: nat where "LCount = 19"
definition VCount :: nat where "VCount = 21"
definition TCount :: nat where "TCount = 28"
definition NCount :: nat where "NCount = 588"
definition SCount :: nat where "SCount = 11172"

definition hangul_decompose_cp :: "nat \<Rightarrow> str" where
  "hangul_decompose_cp c =
     (if SBase \<le> c \<and> c < SBase + SCount
      then (let si = c - SBase;
                l = LBase + si div NCount;
                v = VBase + (si mod NCount) div TCount;
                t = TBase + si mod TCount
            in if t = TBase then [l, v] else [l, v, t])
      else [c])"

definition hangul_decompose :: "str \<Rightarrow> str" where
  "hangul_decompose s = concat (map hangul_decompose_cp s)"

fun hangul_compose :: "str \<Rightarrow> str" where
  "hangul_compose (a # b # cs) =
     (if LBase \<le> a \<and> a < LBase + LCount \<and> VBase \<le> b \<and> b < VBase + VCount
      then hangul_compose ((SBase + ((a - LBase) * VCount + (b - VBase)) * TCount) # cs)
      else if SBase \<le> a \<and> a < SBase + SCount \<and> (a - SBase) mod TCount = 0
              \<and> TBase < b \<and> b < TBase + TCount
      then (a + (b - TBase)) # hangul_compose cs
      else a # hangul_compose (b # cs))"
| "hangul_compose cs = cs"

definition ucd_hangul :: ucd where
  "ucd_hangul =
     \<lparr> ucd_nfkc = (\<lambda>s. hangul_compose (hangul_decompose s)),
       ucd_nfkd = hangul_decompose,
       ucd_lower = map ascii_lower,
       ucd_isalnum = (\<lambda>c. (4352 \<le> c \<and> c \<le> 4607) \<or> (44032 \<le> c \<and> c \<le> 55203)),
       ucd_isspace = (\<lambda>c. False) \<rparr>"


text \<open>A string that \<^verbatim>\<open>re.sub(r"[-\s]+", "-", v)\<close> leaves alone: its only separator is
  the hyphen, and no two separators are adjacent.\<close>

fun collapsed :: "ucd \<Rightarrow> str \<Rightarrow> bool" where
  "collapsed U [] = True"
| "collapsed U [c] = (hyphen_or_space U c \<longrightarrow> c = 45)"
| "collapsed U (a # b # cs) =
     ((hyphen_or_space U a \<longrightarrow> a = 45 \<and> \<not> hyphen_or_space U b) \<and> collapsed U (b # cs))"

section \<open>The transport\<close>

text \<open>
  Every network call goes through a \<^verbatim>\<open>CachedSession\<close>. The session, its cache and the
  server behind it are the environment of the program: a function \<open>net\<close> from the
  history of the run so far and the request to the response the session hands back, so
  that the same request may be answered differently on a second attempt. The history
  records, in order, each request sent, each sleep, each title the chapter generator
  yields and each item added to the book. A request is always answered by a response;
  exceptions of the transport itself (a connection that fails) are outside the model.
\<close>

text \<open>A cookie dict, and the part of the story's JSON the program reads.\<close>

type_synonym cookies = "(str \<times> str) list"

record part =
  part_id :: int
  part_title :: str

record story =
  parts :: "part list"
  language_name :: str
  cover :: str

text \<open>
  The four requests: the POST to \<^verbatim>\<open>auth/login\<close> with its user name and password, and
  the GETs of \<^verbatim>\<open>api/v3/stories/{story_id}\<close>, of \<^verbatim>\<open>apiv2/?m=storytext&id={part_id}\<close>
  and of the cover's URL, each with the cookies of its session.
\<close>

datatype request =
    Login str str
  | Story int cookies
  | Storytext int cookies
  | Image str cookies

text \<open>
  What the program reads of a response: \<^verbatim>\<open>status\<close>, \<^verbatim>\<open>cookies\<close>, \<^verbatim>\<open>text()\<close>, \<^verbatim>\<open>json()\<close>
  (\<open>None\<close> when the body does not decode) and \<^verbatim>\<open>read()\<close>.
\<close>

record response =
  resp_status :: nat
  resp_cookies :: cookies
  resp_text :: str
  resp_json :: "story option"
  resp_read :: bytes

text \<open>A chapter, the items of a book, and the events of a run.\<close>

record EpubHtml =
  title :: str
  file_name :: str
  lang :: str
  content :: str

datatype item = Html EpubHtml | EpubNcx | EpubNav

datatype event = Sent request | Slept nat | Yielded str | Added item

type_synonym history = "event list"
type_synonym net = "history \<Rightarrow> request \<Rightarrow> response"

text \<open>
  The exceptions the program raises: \<^verbatim>\<open>ValueError\<close> with its arguments and
  \<^verbatim>\<open>asyncio.TimeoutError\<close>.
\<close>

datatype arg = Str str | Num nat
datatype error = ValueError "arg list" | TimeoutError

text \<open>\<^verbatim>\<open>response.ok\<close>: the status is below 400.\<close>

definition ok :: "response \<Rightarrow> bool" where
  "ok r = (resp_status r < 400)"

text \<open>\<^verbatim>\<open>session.get\<close> and \<^verbatim>\<open>session.post\<close>: one request, logged, and its response.\<close>

definition send :: "net \<Rightarrow> request \<Rightarrow> history \<Rightarrow> response \<times> history" where
  "send net rq h = (net h rq, h @ [Sent rq])"

section \<open>Login and the three fetches\<close>

text \<open>
  \<^verbatim>\<open>wp_get_cookies\<close>: the user name is lower-cased, the status must be 204 and the
  response must carry cookies. Both failures are a \<^verbatim>\<open>ValueError\<close>.
\<close>

definition wp_get_cookies ::
  "ucd \<Rightarrow> net \<Rightarrow> str \<Rightarrow> str \<Rightarrow> history \<Rightarrow> (error + cookies) \<times> history" where
  "wp_get_cookies U net username password h =
     (let (response, h1) = send net (Login (str_lower U username) password) h
      in if resp_status response \<noteq> 204
         then (Inl (ValueError [Str (ascii ''Not a 204.'')]), h1)
         else (let cookies = resp_cookies response
               in if cookies = []
                  then (Inl (ValueError [Str (ascii ''No cookies.'')]), h1)
                  else (Inr cookies, h1)))"

text \<open>
  The body of the \<^verbatim>\<open>try\<close> of \<^verbatim>\<open>retrieve_story\<close>: the empty dict (\<open>None\<close>) on 404 and
  400, a \<^verbatim>\<open>ValueError\<close> on any other status from 400 on, and otherwise the decoded body;
  \<^verbatim>\<open>response.json()\<close> raises \<^verbatim>\<open>json.JSONDecodeError\<close>, a \<^verbatim>\<open>ValueError\<close>, on a body that
  does not decode (\<open>resp_json\<close> is \<open>None\<close>).
\<close>

definition story_attempt :: "response \<Rightarrow> error + story option" where
  "story_attempt response =
     (if \<not> ok response
      then (if resp_status response \<in> {404, 400} then Inr None
            else Inl (ValueError [Str (ascii ''Status Code:''), Num (resp_status response)]))
      else (case resp_json response of
              None \<Rightarrow> Inl (ValueError [Str (ascii ''JSONDecodeError'')])
            | Some body \<Rightarrow> Inr (Some body)))"

text \<open>
  \<^verbatim>\<open>retrieve_story\<close>: \<^verbatim>\<open>except ValueError\<close> raises \<^verbatim>\<open>asyncio.TimeoutError\<close> when \<open>retry\<close> is
  off; otherwise it sleeps 15 and calls itself with \<open>retry=False\<close> and without the
  cookies, so the second request carries the default, the empty dict.
\<close>

function retrieve_story ::
  "net \<Rightarrow> int \<Rightarrow> bool \<Rightarrow> cookies \<Rightarrow> history \<Rightarrow> (error + story option) \<times> history" where
  "retrieve_story net story_id retry cookies h =
     (let (response, h1) = send net (Story story_id cookies) h
      in case story_attempt response of
           Inr body \<Rightarrow> (Inr body, h1)
         | Inl (ValueError args) \<Rightarrow>
             (if \<not> retry then (Inl TimeoutError, h1)
              else retrieve_story net story_id False [] (h1 @ [Slept 15]))
         | Inl e \<Rightarrow> (Inl e, h1))"
  by pat_completeness auto
termination
  by (relation "measure (\<lambda>(net, story_id, retry, cookies, h). if retry then 1 else 0)") auto

text \<open>\<^verbatim>\<open>fetch_part_content\<close>; its parameter \<open>retry\<close> is never read.\<close>

definition fetch_part_content ::
  "net \<Rightarrow> int \<Rightarrow> bool \<Rightarrow> cookies \<Rightarrow> history \<Rightarrow> (error + str) \<times> history" where
  "fetch_part_content net pid retry cookies h =
     (let (response, h1) = send net (Storytext pid cookies) h
      in if \<not> ok response
         then (if resp_status response \<in> {404, 400} then (Inr [], h1)
               else (Inl (ValueError [Str (ascii ''Status Code:''), Num (resp_status response)]), h1))
         else (Inr (resp_text response), h1))"

definition fetch_cover ::
  "net \<Rightarrow> str \<Rightarrow> cookies \<Rightarrow> history \<Rightarrow> (error + bytes) \<times> history" where
  "fetch_cover net url cookies h =
     (let (response, h1) = send net (Image url cookies) h
      in if \<not> ok response
         then (if resp_status response \<in> {404, 400} then (Inr [], h1)
               else (Inl (ValueError [Str (ascii ''Status Code:''), Num (resp_status response)]), h1))
         else (Inr (resp_read response), h1))"

section \<open>The book\<close>

text \<open>
  The \<^verbatim>\<open>EpubBook\<close>: its items in the order \<^verbatim>\<open>add_item\<close> received them, its table of
  contents, its spine and its cover. A spine entry is an item or the identifier of one:
  the source writes \<^verbatim>\<open>["nav"] + chapters\<close>.
\<close>

datatype spine_entry = SpineId str | SpineItem EpubHtml

record book =
  items :: "item list"
  toc :: "EpubHtml list"
  spine :: "spine_entry list"
  cover_image :: "(str \<times> bytes) option"

definition add_item :: "item \<Rightarrow> book \<times> history \<Rightarrow> book \<times> history" where
  "add_item i = (\<lambda>(b, h). (b\<lparr>items := items b @ [i]\<rparr>, h @ [Added i]))"

text \<open>\<^verbatim>\<open>set_cover\<close> takes no cookies and passes none: \<^verbatim>\<open>fetch_cover\<close> runs on its default.\<close>

definition set_cover :: "net \<Rightarrow> story \<Rightarrow> book \<times> history \<Rightarrow> (error + unit) \<times> book \<times> history" where
  "set_cover net data = (\<lambda>(b, h).
     (case fetch_cover net (cover data) [] h of
        (Inl e, h1) \<Rightarrow> (Inl e, b, h1)
      | (Inr body, h1) \<Rightarrow> (Inr (), b\<lparr>cover_image := Some (ascii ''cover.jpg'', body)\<rparr>, h1)))"

section \<open>\<^verbatim>\<open>add_chapters\<close>\<close>

text \<open>
  \<^verbatim>\<open>add_chapters\<close> is an asynchronous generator. Between two resumptions its frame holds
  the parts the \<^verbatim>\<open>for\<close> loop has not reached and the local list \<^verbatim>\<open>chapters\<close>; a
  generator that has returned or raised is closed. The call
  \<^verbatim>\<open>add_chapters(book, data, cookies)\<close> runs nothing of the body: it gives the generator
  at the top of the function, with every part ahead and \<^verbatim>\<open>chapters\<close> empty. The book,
  which the body changes in place, is part of the state the resumptions pass along.
\<close>

datatype gen = Suspended "part list" "EpubHtml list" | Closed

datatype outcome = Yield str | StopAsyncIteration | Raise error

definition add_chapters :: "story \<Rightarrow> gen" where
  "add_chapters data = Suspended (parts data) []"

definition make_chapter :: "ucd \<Rightarrow> story \<Rightarrow> part \<Rightarrow> str \<Rightarrow> EpubHtml" where
  "make_chapter U data p body =
     \<lparr> title = part_title p,
       file_name = slugify U (part_title p) False @ ascii ''.xhtml'',
       lang = language_name data,
       content = ascii ''<h1>'' @ part_title p @ ascii ''</h1>'' @ body \<rparr>"

text \<open>The code after the loop: the chapters, the table of contents, NCX and Nav, the spine.\<close>

definition add_chapters_end :: "EpubHtml list \<Rightarrow> book \<times> history \<Rightarrow> book \<times> history" where
  "add_chapters_end chapters s =
     (let (b1, h1) = fold (\<lambda>chapter. add_item (Html chapter)) chapters s;
          b2 = b1\<lparr>toc := chapters\<rparr>;
          (b3, h3) = add_item EpubNcx (b2, h1);
          (b4, h4) = add_item EpubNav (b3, h3)
      in (b4\<lparr>spine := SpineId (ascii ''nav'') # map SpineItem chapters\<rparr>, h4))"

text \<open>
  One resumption (\<^verbatim>\<open>__anext__\<close>): with a part left, fetch its content, build the
  chapter, append it to \<^verbatim>\<open>chapters\<close> and yield the title; with none left, run the code
  after the loop and stop. An exception of the fetch closes the generator.
\<close>

fun anext ::
  "ucd \<Rightarrow> net \<Rightarrow> story \<Rightarrow> cookies \<Rightarrow> gen \<times> book \<times> history
     \<Rightarrow> outcome \<times> gen \<times> book \<times> history" where
  "anext U net data cookies (Closed, b, h) = (StopAsyncIteration, Closed, b, h)"
| "anext U net data cookies (Suspended [] chapters, b, h) =
     (let (b1, h1) = add_chapters_end chapters (b, h) in (StopAsyncIteration, Closed, b1, h1))"
| "anext U net data cookies (Suspended (p # rest) chapters, b, h) =
     (case fetch_part_content net (part_id p) True cookies h of
        (Inl e, h1) \<Rightarrow> (Raise e, Closed, b, h1)
      | (Inr body, h1) \<Rightarrow>
          (Yield (part_title p), Suspended rest (chapters @ [make_chapter U data p body]), b,
           h1 @ [Yielded (part_title p)]))"

text \<open>The local list \<^verbatim>\<open>chapters\<close> of a frame.\<close>

fun chapters_of :: "gen \<Rightarrow> EpubHtml list" where
  "chapters_of (Suspended todo chapters) = chapters"
| "chapters_of Closed = []"

text \<open>A measure of the frame: it falls with every part that is fetched.\<close>

fun pending :: "gen \<Rightarrow> nat" where
  "pending (Suspended todo chapters) = Suc (length todo)"
| "pending Closed = 0"

text \<open>
  The consumer. \<open>drain\<close> is \<^verbatim>\<open>async for title in add_chapters(book, data, cookies)\<close> run
  to the end: it collects the titles until the generator stops or raises. \<open>resume n\<close>
  is a consumer that asks for at most \<open>n\<close> items and then leaves.
\<close>

function drain ::
  "ucd \<Rightarrow> net \<Rightarrow> story \<Rightarrow> cookies \<Rightarrow> gen \<times> book \<times> history
     \<Rightarrow> (error + str list) \<times> book \<times> history" where
  "drain U net data cookies s =
     (case anext U net data cookies s of
        (Yield t, s1) \<Rightarrow>
          (case drain U net data cookies s1 of
             (Inl e, s2) \<Rightarrow> (Inl e, s2)
           | (Inr ts, s2) \<Rightarrow> (Inr (t # ts), s2))
      | (StopAsyncIteration, g, s1) \<Rightarrow> (Inr [], s1)
      | (Raise e, g, s1) \<Rightarrow> (Inl e, s1))"
  by pat_completeness auto
termination
  apply (relation "measure (\<lambda>(U, net, data, cookies, g, b, h). pending g)")
   apply simp
  apply clarsimp
  subgoal for U net data cookies g b h g1 b1 h1 t
    apply (cases g)
    subgoal for todo chapters
      by (cases todo) (auto split: prod.splits sum.splits)
    by simp
  done

fun resume ::
  "ucd \<Rightarrow> net \<Rightarrow> story \<Rightarrow> cookies \<Rightarrow> nat \<Rightarrow> gen \<times> book \<times> history
     \<Rightarrow> outcome list \<times> gen \<times> book \<times> history" where
  "resume U net data cookies 0 s = ([], s)"
| "resume U net data cookies (Suc n) s =
     (case anext U net data cookies s of
        (Yield t, s1) \<Rightarrow>
          (let (os, s2) = resume U net data cookies n s1 in (Yield t # os, s2))
      | (out, s1) \<Rightarrow> ([out], s1))"

text \<open>The titles yielded and the items added, as the history records them.\<close>

fun yielded :: "history \<Rightarrow> str list" where
  "yielded [] = []"
| "yielded (Yielded t # h) = t # yielded h"
| "yielded (e # h) = yielded h"

fun added :: "history \<Rightarrow> item list" where
  "added [] = []"
| "added (Added i # h) = i # added h"
| "added (e # h) = added h"

text \<open>A spine entry by name: the identifier, or the title of the chapter.\<close>

fun spine_name :: "spine_entry \<Rightarrow> str" where
  "spine_name (SpineId i) = i"
| "spine_name (SpineItem c) = title c"

text \<open>The two events of a part that is fetched and announced.\<close>

definition part_events :: "cookies \<Rightarrow> part \<Rightarrow> history" where
  "part_events cookies p = [Sent (Storytext (part_id p) cookies), Yielded (part_title p)]"

text \<open>An attempt of \<^verbatim>\<open>retrieve_story\<close> that ends in the handler of \<^verbatim>\<open>ValueError\<close>.\<close>

definition failed :: "response \<Rightarrow> bool" where
  "failed r = (if ok r then resp_json r = None else resp_status r \<notin> {404, 400})"

section \<open>A story and some servers\<close>

text \<open>
  Concrete inputs on which the theorems below are run: a story of two parts, a response
  with a given status, a server that always answers with the same status, one whose
  first answer of a run is a 500, one that refuses the second part, and the credentials
  of a login.
\<close>

definition sample_story :: story where
  "sample_story =
     \<lparr> parts = [\<lparr> part_id = 101, part_title = ascii ''Chapter 1: The Start'' \<rparr>,
                \<lparr> part_id = 102, part_title = ascii ''The_End'' \<rparr>],
       language_name = ascii ''English'',
       cover = ascii ''https://img.example/cover.jpg'' \<rparr>"

definition reply :: "nat \<Rightarrow> response" where
  "reply code =
     \<lparr> resp_status = code,
       resp_cookies = [(ascii ''token'', ascii ''abc'')],
       resp_text = ascii ''<p>Once</p>'',
       resp_json = Some sample_story,
       resp_read = [255, 216] \<rparr>"

definition always :: "nat \<Rightarrow> net" where
  "always code h rq = reply code"

definition flaky :: net where
  "flaky h rq = (if h = [] then reply 500 else reply 200)"

definition second_part_refused :: net where
  "second_part_refused h rq =
     (case rq of Storytext pid c \<Rightarrow> (if pid = 102 then reply 500 else reply 200)
               | _ \<Rightarrow> reply 200)"

definition sample_cookies :: cookies where
  "sample_cookies = [(ascii ''token'', ascii ''abc'')]"

definition new_book :: book where
  "new_book = \<lparr> items = [], toc = [], spine = [], cover_image = None \<rparr>"

definition sample_run :: "(error + str list) \<times> book \<times> history" where
  "sample_run =
     drain ucd_hangul (always 200) sample_story sample_cookies (add_chapters sample_story, new_book, [])"

section \<open>The steps of \<^verbatim>\<open>slugify\<close>\<close>

lemma set_sub_hyphen_space_runs:
  "c \<in> set (sub_hyphen_space_runs U v) \<Longrightarrow> c = 45 \<or> (c \<in> set v \<and> \<not> hyphen_or_space U c)"
  by (induction U v rule: sub_hyphen_space_runs.induct)
     (auto split: if_splits dest: set_dropWhileD)

lemma collapsed_sub_hyphen_space_runs: "collapsed U (sub_hyphen_space_runs U v)"
proof (induction U v rule: sub_hyphen_space_runs.induct)
  case (1 U)
  then show ?case by simp
next
  case (2 U c cs)
  show ?case
  proof (cases "hyphen_or_space U c")
    case True
    let ?r = "dropWhile (hyphen_or_space U) cs"
    have ih: "collapsed U (sub_hyphen_space_runs U ?r)" using 2 True by simp
    show ?thesis
    proof (cases ?r)
      case Nil
      then show ?thesis using True by (simp add: Nil)
    next
      case (Cons d ds)
      then have nd: "\<not> hyphen_or_space U d"
        by (metis hd_dropWhile list.distinct(1) list.sel(1))
      from nd ih show ?thesis using True by (simp add: Cons)
    qed
  next
    case False
    then have ih: "collapsed U (sub_hyphen_space_runs U cs)" using 2 by simp
    show ?thesis using False ih by (cases "sub_hyphen_space_runs U cs") auto
  qed
qed

lemma collapsed_fixed: "collapsed U v \<Longrightarrow> sub_hyphen_space_runs U v = v"
proof (induction U v rule: collapsed.induct)
  case (1 U)
  then show ?case by simp
next
  case (2 U c)
  then show ?case by auto
next
  case (3 U a b cs)
  then show ?case by auto
qed

lemma collapsed_tl: "collapsed U (a # v) \<Longrightarrow> collapsed U v"
  by (cases v) auto

lemma collapsed_dropWhile: "collapsed U v \<Longrightarrow> collapsed U (dropWhile P v)"
  by (induction v) (auto dest: collapsed_tl)

lemma collapsed_append_left: "collapsed U (xs @ ys) \<Longrightarrow> collapsed U xs"
proof (induction U xs rule: collapsed.induct)
  case (1 U)
  then show ?case by simp
next
  case (2 U c)
  then show ?case by (cases ys) auto
next
  case (3 U a b cs)
  then show ?case by auto
qed

lemma strip_prefix_suffix:
  "dropWhile P s = rev (dropWhile P (rev (dropWhile P s))) @ rev (takeWhile P (rev (dropWhile P s)))"
  by (metis rev_append rev_rev_ident takeWhile_dropWhile_id)

lemma collapsed_strip: "collapsed U v \<Longrightarrow> collapsed U (strip cs v)"
  unfolding strip_def
  using collapsed_append_left collapsed_dropWhile strip_prefix_suffix by metis

lemma set_strip: "set (strip cs s) \<subseteq> set s"
  unfolding strip_def by (metis set_dropWhileD set_rev subsetI)

lemma last_strip: "strip cs s \<noteq> [] \<Longrightarrow> last (strip cs s) \<notin> set cs"
  unfolding strip_def
  by (metis hd_dropWhile last_rev rev_is_Nil_conv)

lemma hd_strip: "strip cs s \<noteq> [] \<Longrightarrow> hd (strip cs s) \<notin> set cs"
proof -
  assume ne: "strip cs s \<noteq> []"
  let ?P = "\<lambda>c. c \<in> set cs"
  have eq: "dropWhile ?P s = strip cs s @ rev (takeWhile ?P (rev (dropWhile ?P s)))"
    unfolding strip_def by (rule strip_prefix_suffix)
  then have "hd (dropWhile ?P s) = hd (strip cs s)" using ne by (metis hd_append2)
  moreover have "dropWhile ?P s \<noteq> []" using eq ne by (metis append_is_Nil_conv)
  ultimately show ?thesis by (metis hd_dropWhile)
qed

lemma strip_fixed:
  "s = [] \<or> (hd s \<notin> set cs \<and> last s \<notin> set cs) \<Longrightarrow> strip cs s = s"
proof (cases s)
  case Nil
  then show ?thesis by (simp add: strip_def)
next
  case (Cons a as)
  assume "s = [] \<or> (hd s \<notin> set cs \<and> last s \<notin> set cs)"
  with Cons have h: "a \<notin> set cs" and l: "last s \<notin> set cs" by auto
  have 1: "dropWhile (\<lambda>c. c \<in> set cs) s = s" using Cons h by simp
  have "rev s \<noteq> []" using Cons by simp
  moreover have "hd (rev s) \<notin> set cs" using l by (simp add: hd_rev)
  ultimately have 2: "dropWhile (\<lambda>c. c \<in> set cs) (rev s) = rev s"
    by (cases "rev s") auto
  show ?thesis unfolding strip_def 1 2 by simp
qed

lemma is_ascii_encode_ascii_ignore: "is_ascii (encode_ascii_ignore w)"
  by (simp add: is_ascii_def encode_ascii_ignore_def list_all_iff)

lemma default_mode_chars:
  assumes "c \<in> set (sub_not_word_space_hyphen U (str_lower U (encode_ascii_ignore w)))"
    and "\<not> hyphen_or_space U c"
  shows "lower_alnum c \<or> c = 95"
proof -
  from assms(1) have w: "is_word U c \<or> is_space U c \<or> c = 45"
    and "c \<in> set (map ascii_lower (encode_ascii_ignore w))"
    by (simp_all add: sub_not_word_space_hyphen_def str_lower_def is_ascii_encode_ascii_ignore)
  then obtain d where d: "d < 128" "c = ascii_lower d"
    by (auto simp: encode_ascii_ignore_def)
  from w assms(2) have "is_word U c" by (auto simp: hyphen_or_space_def)
  with d show ?thesis
    by (auto simp: is_word_def ascii_lower_def lower_alnum_def split: if_splits)
qed

lemma slugify_default_chars:
  assumes "c \<in> set (slugify U x False)"
  shows "lower_alnum c \<or> c = 45 \<or> c = 95"
proof -
  let ?v2 = "sub_not_word_space_hyphen U (str_lower U (encode_ascii_ignore (normalize U NFKD x)))"
  from assms have "c \<in> set (sub_hyphen_space_runs U ?v2)"
    using set_strip by (fastforce simp: slugify_def)
  then have "c = 45 \<or> (c \<in> set ?v2 \<and> \<not> hyphen_or_space U c)"
    by (rule set_sub_hyphen_space_runs)
  then show ?thesis using default_mode_chars by blast
qed

lemma slugify_default_ends:
  "slugify U x False = [] \<or>
     (hd (slugify U x False) \<notin> set [45, 95] \<and> last (slugify U x False) \<notin> set [45, 95])"
  unfolding slugify_def Let_def using hd_strip last_strip by (metis (full_types))

lemma slugify_default_collapsed: "collapsed U (slugify U x False)"
  by (simp add: slugify_def collapsed_strip collapsed_sub_hyphen_space_runs)

lemma slug_fixed:
  assumes chars: "\<forall>c \<in> set s. lower_alnum c \<or> c = 45 \<or> c = 95"
    and coll: "collapsed U s"
    and ends: "s = [] \<or> (hd s \<notin> set [45, 95] \<and> last s \<notin> set [45, 95])"
  shows "slugify U s False = s"
proof -
  have asc: "is_ascii s" using chars by (auto simp: is_ascii_def list_all_iff lower_alnum_def)
  then have 1: "normalize U NFKD s = s" by (simp add: normalize_def)
  have 2: "encode_ascii_ignore s = s"
    using asc by (simp add: encode_ascii_ignore_def is_ascii_def list_all_iff)
  have "map ascii_lower s = s"
    using chars by (intro map_idI) (auto simp: ascii_lower_def lower_alnum_def)
  then have 3: "str_lower U s = s" using asc by (simp add: str_lower_def)
  have 4: "sub_not_word_space_hyphen U s = s"
    unfolding sub_not_word_space_hyphen_def using chars
    by (intro filter_True) (auto simp: is_word_def lower_alnum_def)
  have 5: "sub_hyphen_space_runs U s = s" using coll by (rule collapsed_fixed)
  have 6: "strip [45, 95] s = s" using ends by (rule strip_fixed)
  show ?thesis by (simp add: slugify_def 1 2 3 4 5 6)
qed

section \<open>The runs of the generator\<close>

lemma fold_add_item:
  "fold (\<lambda>chapter. add_item (Html chapter)) chs (b, h) =
     (b\<lparr>items := items b @ map Html chs\<rparr>, h @ map (\<lambda>c. Added (Html c)) chs)"
  by (induction chs arbitrary: b h) (simp_all add: add_item_def)

lemma add_chapters_end_eq:
  "add_chapters_end chs (b, h) =
     (b\<lparr>items := items b @ map Html chs @ [EpubNcx, EpubNav], toc := chs,
        spine := SpineId (ascii ''nav'') # map SpineItem chs\<rparr>,
      h @ map (\<lambda>c. Added (Html c)) chs @ [Added EpubNcx, Added EpubNav])"
  unfolding add_chapters_end_def fold_add_item by (simp add: add_item_def)

lemma snd_fetch_part_content:
  "snd (fetch_part_content net pid r c h) = h @ [Sent (Storytext pid c)]"
  by (simp add: fetch_part_content_def send_def)

lemma drain_Nil:
  "drain U net data cookies (Suspended [] chs, b, h) = (Inr [], add_chapters_end chs (b, h))"
  by (subst drain.simps) (simp split: prod.splits)

lemma drain_Cons:
  "drain U net data cookies (Suspended (p # rest) chs, b, h) =
     (case fetch_part_content net (part_id p) True cookies h of
        (Inl e, h1) \<Rightarrow> (Inl e, b, h1)
      | (Inr body, h1) \<Rightarrow>
          (case drain U net data cookies
                  (Suspended rest (chs @ [make_chapter U data p body]), b,
                   h1 @ [Yielded (part_title p)]) of
             (Inl e, s2) \<Rightarrow> (Inl e, s2)
           | (Inr ts, s2) \<Rightarrow> (Inr (part_title p # ts), s2)))"
  by (subst drain.simps) (simp split: prod.splits sum.splits)

lemma drain_success:
  "drain U net data cookies (Suspended todo chs, b, h) = (Inr ts, b', h') \<Longrightarrow>
     ts = map part_title todo \<and>
     (\<exists>new. map title new = map part_title todo \<and>
        map file_name new = map (\<lambda>p. slugify U (part_title p) False @ ascii ''.xhtml'') todo \<and>
        (b', h') = add_chapters_end (chs @ new) (b, h @ concat (map (part_events cookies) todo)))"
proof (induction todo arbitrary: chs h ts)
  case Nil
  then show ?case by (simp add: drain_Nil)
next
  case (Cons p rest)
  obtain r h1 where f: "fetch_part_content net (part_id p) True cookies h = (r, h1)"
    by (cases "fetch_part_content net (part_id p) True cookies h")
  then have h1: "h1 = h @ [Sent (Storytext (part_id p) cookies)]"
    using snd_fetch_part_content[of net "part_id p" True cookies h] by simp
  from Cons.prems f obtain body where r: "r = Inr body"
    by (cases r) (simp_all add: drain_Cons)
  let ?ch = "make_chapter U data p body"
  let ?h2 = "h1 @ [Yielded (part_title p)]"
  obtain r2 b2 h2 where d: "drain U net data cookies (Suspended rest (chs @ [?ch]), b, ?h2) = (r2, b2, h2)"
    by (metis prod_cases3)
  from Cons.prems f r d obtain ts2 where r2: "r2 = Inr ts2" and ts: "ts = part_title p # ts2"
    and bh: "b2 = b'" "h2 = h'"
    by (cases r2) (auto simp: drain_Cons)
  from Cons.IH[OF d[unfolded r2 bh]] obtain new where
    ts2: "ts2 = map part_title rest" and
    n1: "map title new = map part_title rest" and
    n2: "map file_name new = map (\<lambda>p. slugify U (part_title p) False @ ascii ''.xhtml'') rest" and
    n3: "(b', h') = add_chapters_end ((chs @ [?ch]) @ new) (b, ?h2 @ concat (map (part_events cookies) rest))"
    by blast
  have m1: "map title (?ch # new) = map part_title (p # rest)"
    using n1 by (simp add: make_chapter_def)
  have m2: "map file_name (?ch # new) =
      map (\<lambda>p. slugify U (part_title p) False @ ascii ''.xhtml'') (p # rest)"
    using n2 by (simp add: make_chapter_def)
  have m3: "(b', h') = add_chapters_end (chs @ ?ch # new) (b, h @ concat (map (part_events cookies) (p # rest)))"
    using n3 by (simp add: h1 part_events_def)
  have m0: "ts = map part_title (p # rest)" using ts ts2 by simp
  show ?case
    by (rule conjI[OF m0]) (rule exI[of _ "?ch # new"], intro conjI m1 m2 m3)
qed

lemma drain_add_chapters:
  assumes "drain U net data cookies (add_chapters data, b, h) = (Inr ts, b', h')"
  shows "ts = map part_title (parts data)"
    and "map title (toc b') = map part_title (parts data)"
    and "map file_name (toc b') =
           map (\<lambda>p. slugify U (part_title p) False @ ascii ''.xhtml'') (parts data)"
    and "spine b' = SpineId (ascii ''nav'') # map SpineItem (toc b')"
    and "items b' = items b @ map Html (toc b') @ [EpubNcx, EpubNav]"
    and "h' = h @ concat (map (part_events cookies) (parts data))
               @ map (\<lambda>c. Added (Html c)) (toc b') @ [Added EpubNcx, Added EpubNav]"
proof -
  from drain_success[OF assms[unfolded add_chapters_def]] obtain new where
    ts: "ts = map part_title (parts data)" and
    n1: "map title new = map part_title (parts data)" and
    n2: "map file_name new = map (\<lambda>p. slugify U (part_title p) False @ ascii ''.xhtml'') (parts data)" and
    n3: "(b', h') = add_chapters_end ([] @ new) (b, h @ concat (map (part_events cookies) (parts data)))"
    by blast
  from n3 have b': "b' = b\<lparr>items := items b @ map Html new @ [EpubNcx, EpubNav], toc := new,
        spine := SpineId (ascii ''nav'') # map SpineItem new\<rparr>"
    and h': "h' = (h @ concat (map (part_events cookies) (parts data)))
                 @ map (\<lambda>c. Added (Html c)) new @ [Added EpubNcx, Added EpubNav]"
    by (simp_all add: add_chapters_end_eq)
  show "ts = map part_title (parts data)" by (rule ts)
  show "map title (toc b') = map part_title (parts data)" using n1 b' by simp
  show "map file_name (toc b') =
           map (\<lambda>p. slugify U (part_title p) False @ ascii ''.xhtml'') (parts data)"
    using n2 b' by simp
  show "spine b' = SpineId (ascii ''nav'') # map SpineItem (toc b')" using b' by simp
  show "items b' = items b @ map Html (toc b') @ [EpubNcx, EpubNav]" using b' by simp
  show "h' = h @ concat (map (part_events cookies) (parts data))
               @ map (\<lambda>c. Added (Html c)) (toc b') @ [Added EpubNcx, Added EpubNav]"
    using h' b' by simp
qed

lemma yielded_append: "yielded (h @ k) = yielded h @ yielded k"
  by (induction h rule: yielded.induct) simp_all

lemma added_append: "added (h @ k) = added h @ added k"
  by (induction h rule: added.induct) simp_all

lemma yielded_part_events:
  "yielded (concat (map (part_events cookies) ps)) = map part_title ps"
  by (induction ps) (simp_all add: part_events_def)

lemma yielded_Added: "yielded (map (\<lambda>c. Added (Html c)) chs) = []"
  by (induction chs) simp_all

lemma drain_failure:
  "drain U net data cookies (Suspended todo chs, b, h) = (Inl e, b', h') \<Longrightarrow>
     b' = b \<and> added h' = added h"
proof (induction todo arbitrary: chs h)
  case Nil
  then show ?case by (simp add: drain_Nil)
next
  case (Cons p rest)
  obtain r h1 where f: "fetch_part_content net (part_id p) True cookies h = (r, h1)"
    by (cases "fetch_part_content net (part_id p) True cookies h")
  then have h1: "h1 = h @ [Sent (Storytext (part_id p) cookies)]"
    using snd_fetch_part_content[of net "part_id p" True cookies h] by simp
  show ?case
  proof (cases r)
    case (Inl e1)
    with Cons.prems f have "b' = b" "h' = h1" by (simp_all add: drain_Cons)
    then show ?thesis by (simp add: h1 added_append)
  next
    case (Inr body)
    let ?s = "(Suspended rest (chs @ [make_chapter U data p body]), b, h1 @ [Yielded (part_title p)])"
    obtain r2 b2 h2 where d: "drain U net data cookies ?s = (r2, b2, h2)"
      by (metis prod_cases3)
    from Cons.prems f Inr d have "r2 = Inl e" "b2 = b'" "h2 = h'"
      by (cases r2; simp add: drain_Cons)+
    with d Cons.IH have "b' = b \<and> added h' = added (h1 @ [Yielded (part_title p)])" by blast
    then show ?thesis by (simp add: h1 added_append)
  qed
qed

lemma resume_unfinished:
  "resume U net data cookies n (Suspended todo chs, b, h) = (os, g, b', h') \<Longrightarrow>
     StopAsyncIteration \<notin> set os \<Longrightarrow> b' = b \<and> added h' = added h"
proof (induction n arbitrary: todo chs h os g)
  case 0
  then show ?case by simp
next
  case (Suc n)
  show ?case
  proof (cases todo)
    case Nil
    with Suc.prems show ?thesis by (auto split: prod.splits)
  next
    case (Cons p rest)
    obtain r h1 where f: "fetch_part_content net (part_id p) True cookies h = (r, h1)"
      by (cases "fetch_part_content net (part_id p) True cookies h")
    then have h1: "h1 = h @ [Sent (Storytext (part_id p) cookies)]"
      using snd_fetch_part_content[of net "part_id p" True cookies h] by simp
    show ?thesis
    proof (cases r)
      case (Inl e1)
      with Suc.prems Cons f have "b' = b" "h' = h1" by auto
      then show ?thesis by (simp add: h1 added_append)
    next
      case (Inr body)
      let ?s = "(Suspended rest (chs @ [make_chapter U data p body]), b, h1 @ [Yielded (part_title p)])"
      obtain os2 g2 b2 h2 where d: "resume U net data cookies n ?s = (os2, g2, b2, h2)"
        by (metis prod_cases4)
      from Suc.prems(1) Cons f Inr d have "os = Yield (part_title p) # os2" "b2 = b'" "h2 = h'"
        by auto
      with d Suc.IH Suc.prems(2) have "b' = b \<and> added h' = added (h1 @ [Yielded (part_title p)])"
        by auto
      then show ?thesis by (simp add: h1 added_append)
    qed
  qed
qed

section \<open>Evaluation on the concrete inputs\<close>

lemmas slug_defs =
  slugify_def normalize_def is_ascii_def encode_ascii_ignore_def str_lower_def ascii_lower_def
  sub_not_word_space_hyphen_def is_word_def is_space_def hyphen_or_space_def strip_def
  ucd_hangul_def hangul_decompose_def hangul_decompose_cp_def ascii_def lower_alnum_def
  SBase_def LBase_def VBase_def TBase_def LCount_def VCount_def TCount_def NCount_def SCount_def

lemmas net_defs =
  sample_story_def reply_def always_def flaky_def second_part_refused_def sample_cookies_def
  new_book_def send_def ok_def failed_def

lemma sample_first:
  "fst sample_run = Inr [ascii ''Chapter 1: The Start'', ascii ''The_End'']"
  by (simp add: sample_run_def add_chapters_def drain_Cons drain_Nil add_chapters_end_eq fetch_part_content_def
      net_defs)

lemma sample_run_collapse:
  "sample_run =
     (Inr [ascii ''Chapter 1: The Start'', ascii ''The_End''], fst (snd sample_run),
      snd (snd sample_run))"
  using sample_first by (metis prod.collapse)

lemma sample_drain:
  "drain ucd_hangul (always 200) sample_story sample_cookies (add_chapters sample_story, new_book, []) =
     (Inr [ascii ''Chapter 1: The Start'', ascii ''The_End''], fst (snd sample_run),
      snd (snd sample_run))"
  using sample_run_collapse by (simp add: sample_run_def)

section \<open>The spine\<close>

text \<open>
  C1, as the code has it. After the generator has run to its end over a story of N
  parts, the spine is the navigation entry \<^verbatim>\<open>"nav"\<close> followed by the N chapters in the
  order of the parts, so N + 1 entries: one structural entry precedes the chapters. The
  NCX and the navigation document are items of the book, added after the chapters; the
  NCX is no entry of the spine.
\<close>

theorem spine_after_run:
  "drain U net data cookies (add_chapters data, b, h) = (Inr ts, b', h') \<Longrightarrow>
     spine b' = SpineId (ascii ''nav'') # map SpineItem (toc b') \<and>
     map title (toc b') = map part_title (parts data) \<and>
     map file_name (toc b') =
       map (\<lambda>p. slugify U (part_title p) False @ ascii ''.xhtml'') (parts data) \<and>
     length (spine b') = 1 + length (parts data) \<and>
     items b' = items b @ map Html (toc b') @ [EpubNcx, EpubNav]"
proof -
  assume run: "drain U net data cookies (add_chapters data, b, h) = (Inr ts, b', h')"
  note facts = drain_add_chapters[OF run]
  have "length (toc b') = length (parts data)"
    using facts(2) by (metis length_map)
  then have "length (spine b') = 1 + length (parts data)"
    using facts(4) by simp
  with facts show ?thesis by simp
qed

theorem spine_after_run_witness:
  "fst sample_run = Inr (map part_title (parts sample_story)) \<and>
   map spine_name (spine (fst (snd sample_run))) =
     [ascii ''nav'', ascii ''Chapter 1: The Start'', ascii ''The_End''] \<and>
   map file_name (toc (fst (snd sample_run))) =
     [ascii ''chapter-1-the-start.xhtml'', ascii ''the_end.xhtml''] \<and>
   map spine_name (spine (fst (snd sample_run))) =
     ascii ''nav'' # map part_title (parts sample_story)"
proof -
  note t = spine_after_run[OF sample_drain]
  have "map spine_name (map SpineItem (toc (fst (snd sample_run)))) =
      map title (toc (fst (snd sample_run)))"
    by (simp add: comp_def)
  with t have n: "map spine_name (spine (fst (snd sample_run))) =
      ascii ''nav'' # map part_title (parts sample_story)"
    by simp
  have f: "map (\<lambda>p. slugify ucd_hangul (part_title p) False @ ascii ''.xhtml'') (parts sample_story)
      = [ascii ''chapter-1-the-start.xhtml'', ascii ''the_end.xhtml'']"
    by (simp add: sample_story_def slug_defs)
  show ?thesis using n t f sample_first by (simp add: sample_story_def)
qed

text \<open>
  The spine of the run over the two-part story has three entries, not four: the entry
  after \<^verbatim>\<open>"nav"\<close> is the first chapter.
\<close>

theorem spine_contents_index_counterexample:
  "fst sample_run = Inr (map part_title (parts sample_story)) \<and>
   map spine_name (spine (fst (snd sample_run))) =
     [ascii ''nav'', ascii ''Chapter 1: The Start'', ascii ''The_End''] \<and>
   length (spine (fst (snd sample_run))) \<noteq> 2 + length (parts sample_story)"
  by (simp add: sample_run_def add_chapters_def drain_Cons drain_Nil add_chapters_end_eq fetch_part_content_def
      net_defs make_chapter_def)

section \<open>The slug\<close>

text \<open>
  C2, as the code has it. In the default mode, whatever the input and whatever the Unicode
  tables, \<^verbatim>\<open>slugify(x)\<close> holds only lower-case ASCII alphanumerics, hyphens and
  underscores (\<^verbatim>\<open>\w\<close> keeps the underscore), and it neither starts nor ends with a
  hyphen or an underscore.
\<close>

theorem slugify_default_charset:
  "(\<forall>c \<in> set (slugify U x False). lower_alnum c \<or> c = 45 \<or> c = 95) \<and>
   (slugify U x False \<noteq> [] \<longrightarrow>
      hd (slugify U x False) \<notin> {45, 95} \<and> last (slugify U x False) \<notin> {45, 95})"
proof -
  have "slugify U x False \<noteq> [] \<longrightarrow>
      hd (slugify U x False) \<notin> set [45, 95] \<and> last (slugify U x False) \<notin> set [45, 95]"
    using slugify_default_ends[of U x] by blast
  then show ?thesis using slugify_default_chars by auto
qed

theorem slugify_default_charset_witness:
  "slugify ucd_hangul (ascii ''__Chapter 1: The_End!--'') False = ascii ''chapter-1-the_end'' \<and>
   list_all (\<lambda>c. lower_alnum c \<or> c = 45 \<or> c = 95)
     (slugify ucd_hangul (ascii ''__Chapter 1: The_End!--'') False) \<and>
   hd (slugify ucd_hangul (ascii ''__Chapter 1: The_End!--'') False) \<notin> {45, 95} \<and>
   last (slugify ucd_hangul (ascii ''__Chapter 1: The_End!--'') False) \<notin> {45, 95}"
proof -
  have e: "slugify ucd_hangul (ascii ''__Chapter 1: The_End!--'') False = ascii ''chapter-1-the_end''"
    by (simp add: slug_defs)
  have ne: "ascii ''chapter-1-the_end'' \<noteq> []" by (simp add: ascii_def)
  show ?thesis
    using slugify_default_charset[of ucd_hangul "ascii ''__Chapter 1: The_End!--''"] ne
    unfolding e by (simp add: list_all_iff)
qed

text \<open>The slug of \<^verbatim>\<open>a_b\<close> is \<^verbatim>\<open>a_b\<close>: the underscore is neither alphanumeric nor a hyphen.\<close>

theorem slugify_underscore_counterexample:
  "\<not> (\<forall>c \<in> set (slugify ucd_hangul (ascii ''a_b'') False). lower_alnum c \<or> c = 45)"
  by (simp add: slug_defs)

text \<open>
  C9, as the code has it. In the default mode \<^verbatim>\<open>slugify\<close> is idempotent, whatever the
  input and the Unicode tables; and in either mode equal inputs give equal slugs.
\<close>

theorem slugify_default_idempotent:
  "slugify U (slugify U x False) False = slugify U x False \<and>
   (\<forall>y m. x = y \<longrightarrow> slugify U x m = slugify U y m)"
proof -
  have "slugify U (slugify U x False) False = slugify U x False"
  proof (rule slug_fixed)
    show "\<forall>c \<in> set (slugify U x False). lower_alnum c \<or> c = 45 \<or> c = 95"
      using slugify_default_chars by blast
    show "collapsed U (slugify U x False)" by (rule slugify_default_collapsed)
    show "slugify U x False = [] \<or>
      (hd (slugify U x False) \<notin> set [45, 95] \<and> last (slugify U x False) \<notin> set [45, 95])"
      by (rule slugify_default_ends)
  qed
  then show ?thesis by simp
qed

theorem slugify_default_idempotent_witness:
  "slugify ucd_hangul [44032, 32, 45, 95, 65, 95, 66, 33] False = ascii ''a_b'' \<and>
   slugify ucd_hangul (slugify ucd_hangul [44032, 32, 45, 95, 65, 95, 66, 33] False) False =
     slugify ucd_hangul [44032, 32, 45, 95, 65, 95, 66, 33] False"
proof -
  have e: "slugify ucd_hangul [44032, 32, 45, 95, 65, 95, 66, 33] False = ascii ''a_b''"
    by (simp add: slug_defs)
  have i: "slugify ucd_hangul (slugify ucd_hangul [44032, 32, 45, 95, 65, 95, 66, 33] False) False =
      slugify ucd_hangul [44032, 32, 45, 95, 65, 95, 66, 33] False"
    using slugify_default_idempotent[of ucd_hangul "[44032, 32, 45, 95, 65, 95, 66, 33]"]
    by (rule conjunct1)
  show ?thesis using e i by simp
qed

text \<open>
  With \<^verbatim>\<open>allow_unicode=True\<close> the slug of U+1100, \<^verbatim>\<open>!\<close>, U+1161 is the two jamo
  U+1100 U+1161: the exclamation mark that kept them apart is gone. NFKC composes them,
  so the slug of that slug is the one syllable U+AC00.
\<close>

theorem slugify_unicode_idempotent_counterexample:
  "slugify ucd_hangul [4352, 33, 4449] True = [4352, 4449] \<and>
   slugify ucd_hangul (slugify ucd_hangul [4352, 33, 4449] True) True = [44032] \<and>
   slugify ucd_hangul (slugify ucd_hangul [4352, 33, 4449] True) True \<noteq>
     slugify ucd_hangul [4352, 33, 4449] True"
proof -
  have a: "slugify ucd_hangul [4352, 33, 4449] True = [4352, 4449]"
    by (simp add: slug_defs)
  have b: "slugify ucd_hangul [4352, 4449] True = [44032]"
    by (simp add: slug_defs)
  show ?thesis by (simp add: a b)
qed

section \<open>Login and the fetches\<close>

declare retrieve_story.simps [simp del]

lemma story_attempt_failed:
  "failed r \<Longrightarrow> \<exists>args. story_attempt r = Inl (ValueError args)"
  by (auto simp: story_attempt_def failed_def split: option.splits if_splits)

lemma story_attempt_not_failed:
  "\<not> failed r \<Longrightarrow>
     story_attempt r = (if resp_status r \<in> {404, 400} then Inr None else Inr (resp_json r))"
  by (auto simp: story_attempt_def failed_def ok_def split: option.splits if_splits)

lemma retrieve_story_once:
  "retrieve_story net story_id False cookies h =
     (if failed (net h (Story story_id cookies)) then Inl TimeoutError
      else if resp_status (net h (Story story_id cookies)) \<in> {404, 400} then Inr None
      else Inr (resp_json (net h (Story story_id cookies))),
      h @ [Sent (Story story_id cookies)])"
proof (cases "failed (net h (Story story_id cookies))")
  case True
  then obtain args where "story_attempt (net h (Story story_id cookies)) = Inl (ValueError args)"
    using story_attempt_failed by blast
  with True show ?thesis
    by (subst retrieve_story.simps) (simp add: send_def)
next
  case False
  then show ?thesis
    by (subst retrieve_story.simps) (simp add: send_def story_attempt_not_failed)
qed

lemma retrieve_story_retry:
  "failed (net h (Story story_id cookies)) \<Longrightarrow>
     retrieve_story net story_id True cookies h =
       retrieve_story net story_id False [] (h @ [Sent (Story story_id cookies), Slept 15])"
proof -
  assume "failed (net h (Story story_id cookies))"
  then obtain args where "story_attempt (net h (Story story_id cookies)) = Inl (ValueError args)"
    using story_attempt_failed by blast
  then show ?thesis
    by (subst retrieve_story.simps) (simp add: send_def)
qed




text \<open>
  C6. \<^verbatim>\<open>fetch_part_content\<close> and \<^verbatim>\<open>fetch_cover\<close> each send one request and no more,
  whatever the answer. On a 404 or a 400 the result is the empty string, or the empty
  bytes, and nothing is raised; on any other status from 400 on it is an error that
  carries the status; otherwise it is the body.
\<close>

theorem fetch_not_found_or_error:
  "let r = net h (Storytext pid cookies); h1 = h @ [Sent (Storytext pid cookies)];
       c = net h (Image url cookies); k1 = h @ [Sent (Image url cookies)]
   in (resp_status r \<in> {404, 400} \<longrightarrow>
         fetch_part_content net pid retry cookies h = (Inr [], h1)) \<and>
      (\<not> ok r \<and> resp_status r \<notin> {404, 400} \<longrightarrow>
         fetch_part_content net pid retry cookies h =
           (Inl (ValueError [Str (ascii ''Status Code:''), Num (resp_status r)]), h1)) \<and>
      (ok r \<longrightarrow> fetch_part_content net pid retry cookies h = (Inr (resp_text r), h1)) \<and>
      (resp_status c \<in> {404, 400} \<longrightarrow> fetch_cover net url cookies h = (Inr [], k1)) \<and>
      (\<not> ok c \<and> resp_status c \<notin> {404, 400} \<longrightarrow>
         fetch_cover net url cookies h =
           (Inl (ValueError [Str (ascii ''Status Code:''), Num (resp_status c)]), k1)) \<and>
      (ok c \<longrightarrow> fetch_cover net url cookies h = (Inr (resp_read c), k1))"
  by (auto simp: Let_def fetch_part_content_def fetch_cover_def send_def ok_def)

theorem fetch_not_found_or_error_witness:
  "fetch_part_content (always 404) 101 True sample_cookies [] =
     (Inr [], [Sent (Storytext 101 sample_cookies)]) \<and>
   fetch_part_content (always 503) 101 True sample_cookies [] =
     (Inl (ValueError [Str (ascii ''Status Code:''), Num 503]),
      [Sent (Storytext 101 sample_cookies)]) \<and>
   fetch_part_content (always 200) 101 True sample_cookies [] =
     (Inr (ascii ''<p>Once</p>''), [Sent (Storytext 101 sample_cookies)]) \<and>
   fetch_cover (always 400) (ascii ''u'') sample_cookies [] =
     (Inr [], [Sent (Image (ascii ''u'') sample_cookies)]) \<and>
   fetch_cover (always 500) (ascii ''u'') sample_cookies [] =
     (Inl (ValueError [Str (ascii ''Status Code:''), Num 500]),
      [Sent (Image (ascii ''u'') sample_cookies)]) \<and>
   fetch_cover (always 200) (ascii ''u'') sample_cookies [] =
     (Inr [255, 216], [Sent (Image (ascii ''u'') sample_cookies)])"
  using fetch_not_found_or_error[where net = "always 404" and h = "[]" and pid = 101
      and cookies = sample_cookies and url = "ascii ''u''" and retry = True]
    fetch_not_found_or_error[where net = "always 503" and h = "[]" and pid = 101
      and cookies = sample_cookies and url = "ascii ''u''" and retry = True]
    fetch_not_found_or_error[where net = "always 200" and h = "[]" and pid = 101
      and cookies = sample_cookies and url = "ascii ''u''" and retry = True]
    fetch_not_found_or_error[where net = "always 400" and h = "[]" and pid = 101
      and cookies = sample_cookies and url = "ascii ''u''" and retry = True]
    fetch_not_found_or_error[where net = "always 500" and h = "[]" and pid = 101
      and cookies = sample_cookies and url = "ascii ''u''" and retry = True]
  by (simp add: Let_def always_def reply_def ok_def)

text \<open>
  C8. \<^verbatim>\<open>wp_get_cookies\<close> sends the one login request and never a second. It fails
  exactly when the status is not 204, or the status is 204 and the response carries no
  cookie; the error is the \<^verbatim>\<open>ValueError\<close> the source raises for that case. When it does
  not fail it returns the cookies of the response, and they are not empty.
\<close>

theorem login_fails_exactly:
  "let rq = Login (str_lower U username) password; r = net h rq
   in snd (wp_get_cookies U net username password h) = h @ [Sent rq] \<and>
      ((\<exists>e. fst (wp_get_cookies U net username password h) = Inl e) \<longleftrightarrow>
         (resp_status r \<noteq> 204 \<or> resp_cookies r = [])) \<and>
      (resp_status r \<noteq> 204 \<longrightarrow>
         fst (wp_get_cookies U net username password h) =
           Inl (ValueError [Str (ascii ''Not a 204.'')])) \<and>
      (resp_status r = 204 \<and> resp_cookies r = [] \<longrightarrow>
         fst (wp_get_cookies U net username password h) =
           Inl (ValueError [Str (ascii ''No cookies.'')])) \<and>
      (\<forall>c. fst (wp_get_cookies U net username password h) = Inr c \<longrightarrow>
         c \<noteq> [] \<and> c = resp_cookies r \<and> resp_status r = 204)"
  by (auto simp: Let_def wp_get_cookies_def send_def)

theorem login_fails_exactly_witness:
  "fst (wp_get_cookies ucd_hangul (always 204) (ascii ''Alice'') (ascii ''pw'') []) =
     Inr sample_cookies \<and>
   snd (wp_get_cookies ucd_hangul (always 204) (ascii ''Alice'') (ascii ''pw'') []) =
     [Sent (Login (ascii ''alice'') (ascii ''pw''))] \<and>
   fst (wp_get_cookies ucd_hangul (always 403) (ascii ''Alice'') (ascii ''pw'') []) =
     Inl (ValueError [Str (ascii ''Not a 204.'')]) \<and>
   snd (wp_get_cookies ucd_hangul (always 403) (ascii ''Alice'') (ascii ''pw'') []) =
     [Sent (Login (ascii ''alice'') (ascii ''pw''))]"
proof -
  let ?W = "\<lambda>code. wp_get_cookies ucd_hangul (always code) (ascii ''Alice'') (ascii ''pw'') []"
  have l: "str_lower ucd_hangul (ascii ''Alice'') = ascii ''alice''"
    by (simp add: slug_defs)
  have a: "resp_status (always code h rq) = code" "resp_cookies (always code h rq) = sample_cookies"
    for code h rq
    by (simp_all add: always_def reply_def sample_cookies_def)
  have n: "sample_cookies \<noteq> []" by (simp add: sample_cookies_def)
  note t1 = login_fails_exactly[where U = ucd_hangul and username = "ascii ''Alice''"
      and password = "ascii ''pw''" and net = "always 204" and h = "[]"]
  note t2 = login_fails_exactly[where U = ucd_hangul and username = "ascii ''Alice''"
      and password = "ascii ''pw''" and net = "always 403" and h = "[]"]
  from t1 have s1: "snd (?W 204) = [Sent (Login (ascii ''alice'') (ascii ''pw''))]"
    by (simp add: Let_def l)
  from t2 have s2: "snd (?W 403) = [Sent (Login (ascii ''alice'') (ascii ''pw''))]"
    by (simp add: Let_def l)
  from t2 have f2: "fst (?W 403) = Inl (ValueError [Str (ascii ''Not a 204.'')])"
    by (simp add: Let_def l a)
  from t1 have "\<not> (\<exists>e. fst (?W 204) = Inl e)"
    by (simp add: Let_def l a n)
  then obtain c where c: "fst (?W 204) = Inr c"
    by (cases "fst (?W 204)") auto
  with t1 have "c = sample_cookies"
    by (simp add: Let_def l a)
  with c s1 s2 f2 show ?thesis by simp
qed

text \<open>
  C3, on the code. The credentials are never changed, but two fetches go out without
  them. With credentials \<^verbatim>\<open>{"token": "abc"}\<close> and a first answer of 500, the request of
  the retry carries the empty dict: \<^verbatim>\<open>retrieve_story\<close> calls itself without its cookies.
  And \<^verbatim>\<open>set_cover\<close>, which takes no cookies, sends the request for the cover with the
  empty dict as well.
\<close>

theorem credentials_dropped_on_retry_and_cover:
  "sample_cookies \<noteq> [] \<and>
   retrieve_story flaky 7 True sample_cookies [] =
     (Inr (Some sample_story), [Sent (Story 7 sample_cookies), Slept 15, Sent (Story 7 [])]) \<and>
   snd (snd (set_cover (always 200) sample_story (new_book, []))) =
     [Sent (Image (cover sample_story) [])]"
proof -
  have f: "failed (flaky [] (Story 7 sample_cookies))" by (simp add: net_defs)
  have r: "retrieve_story flaky 7 True sample_cookies [] =
     (Inr (Some sample_story), [Sent (Story 7 sample_cookies), Slept 15, Sent (Story 7 [])])"
    using f by (simp add: retrieve_story_retry retrieve_story_once) (simp add: net_defs)
  have c: "snd (snd (set_cover (always 200) sample_story (new_book, []))) =
     [Sent (Image (cover sample_story) [])]"
    by (simp add: set_cover_def fetch_cover_def send_def always_def reply_def ok_def)
  show ?thesis using r c by (simp add: sample_cookies_def)
qed

section \<open>The chapters and the progress events\<close>

lemma added_part_events: "added (concat (map (part_events cookies) ps)) = []"
  by (induction ps) (simp_all add: part_events_def)

lemma anext_part:
  "anext U net data cookies (Suspended (p # rest) chs, b, h) =
     (case fst (fetch_part_content net (part_id p) True cookies h) of
        Inl e \<Rightarrow> (Raise e, Closed, b, h @ [Sent (Storytext (part_id p) cookies)])
      | Inr body \<Rightarrow>
          (Yield (part_title p), Suspended rest (chs @ [make_chapter U data p body]), b,
           h @ part_events cookies p))"
proof -
  obtain r h1 where f: "fetch_part_content net (part_id p) True cookies h = (r, h1)"
    by (cases "fetch_part_content net (part_id p) True cookies h")
  then have "h1 = h @ [Sent (Storytext (part_id p) cookies)]"
    using snd_fetch_part_content[of net "part_id p" True cookies h] by simp
  with f show ?thesis by (cases r) (simp_all add: part_events_def)
qed

text \<open>
  C4, as the code has it. A resumption of the generator with a part left sends the
  request for that part's content and nothing else. If the fetch raises, the generator
  raises and yields no title. If it succeeds, the chapter is built and appended to the
  local list \<^verbatim>\<open>chapters\<close>, and then the title is yielded, with no other event in
  between; the book is as it was. In a run to the end the history is, part by part, the
  request and the yield of the title, and only after the last of them the chapters are
  added to the book, in the same order, followed by NCX and Nav.
\<close>

theorem title_yielded_after_fetch_and_append:
  "(\<forall>e. fst (fetch_part_content net (part_id p) True cookies h) = Inl e \<longrightarrow>
      anext U net data cookies (Suspended (p # rest) chs, b, h) =
        (Raise e, Closed, b, h @ [Sent (Storytext (part_id p) cookies)])) \<and>
   (\<forall>body. fst (fetch_part_content net (part_id p) True cookies h) = Inr body \<longrightarrow>
      anext U net data cookies (Suspended (p # rest) chs, b, h) =
        (Yield (part_title p), Suspended rest (chs @ [make_chapter U data p body]), b,
         h @ [Sent (Storytext (part_id p) cookies), Yielded (part_title p)])) \<and>
   (drain U net data cookies (add_chapters data, b, h) = (Inr ts, b', h') \<longrightarrow>
      h' = h @ concat (map (part_events cookies) (parts data))
             @ map (\<lambda>c. Added (Html c)) (toc b') @ [Added EpubNcx, Added EpubNav] \<and>
      map title (toc b') = map part_title (parts data))"
proof (intro conjI allI impI)
  fix e
  assume "fst (fetch_part_content net (part_id p) True cookies h) = Inl e"
  then show "anext U net data cookies (Suspended (p # rest) chs, b, h) =
        (Raise e, Closed, b, h @ [Sent (Storytext (part_id p) cookies)])"
    by (subst anext_part) simp
next
  fix body
  assume "fst (fetch_part_content net (part_id p) True cookies h) = Inr body"
  then show "anext U net data cookies (Suspended (p # rest) chs, b, h) =
        (Yield (part_title p), Suspended rest (chs @ [make_chapter U data p body]), b,
         h @ [Sent (Storytext (part_id p) cookies), Yielded (part_title p)])"
    by (subst anext_part) (simp add: part_events_def)
next
  assume run: "drain U net data cookies (add_chapters data, b, h) = (Inr ts, b', h')"
  show "h' = h @ concat (map (part_events cookies) (parts data))
             @ map (\<lambda>c. Added (Html c)) (toc b') @ [Added EpubNcx, Added EpubNav]"
    by (rule drain_add_chapters(6)[OF run])
  show "map title (toc b') = map part_title (parts data)"
    by (rule drain_add_chapters(2)[OF run])
qed

theorem title_yielded_after_fetch_and_append_witness:
  "fst (anext ucd_hangul (always 200) sample_story sample_cookies
          (Suspended (parts sample_story) [], new_book, [])) =
     Yield (ascii ''Chapter 1: The Start'') \<and>
   snd (snd (anext ucd_hangul (always 200) sample_story sample_cookies
          (Suspended (parts sample_story) [], new_book, []))) =
     (new_book, [Sent (Storytext 101 sample_cookies), Yielded (ascii ''Chapter 1: The Start'')]) \<and>
   snd (snd sample_run) =
     [Sent (Storytext 101 sample_cookies), Yielded (ascii ''Chapter 1: The Start''),
      Sent (Storytext 102 sample_cookies), Yielded (ascii ''The_End'')]
     @ map (\<lambda>c. Added (Html c)) (toc (fst (snd sample_run))) @ [Added EpubNcx, Added EpubNav] \<and>
   map title (toc (fst (snd sample_run))) = [ascii ''Chapter 1: The Start'', ascii ''The_End'']"
proof -
  let ?p = "\<lparr>part_id = 101, part_title = ascii ''Chapter 1: The Start''\<rparr>"
  let ?q = "\<lparr>part_id = 102, part_title = ascii ''The_End''\<rparr>"
  have ps: "parts sample_story = [?p, ?q]" by (simp add: sample_story_def)
  have f: "fst (fetch_part_content (always 200) (part_id ?p) True sample_cookies []) =
      Inr (ascii ''<p>Once</p>'')"
    by (simp add: fetch_part_content_def send_def always_def reply_def ok_def)
  note t = title_yielded_after_fetch_and_append[where U = ucd_hangul and net = "always 200"
      and data = sample_story and cookies = sample_cookies and p = ?p and rest = "[?q]"
      and chs = "[]" and b = new_book and h = "[]" and b' = "fst (snd sample_run)"
      and h' = "snd (snd sample_run)" and ts = "[ascii ''Chapter 1: The Start'', ascii ''The_End'']"]
  from t f have a: "anext ucd_hangul (always 200) sample_story sample_cookies
          (Suspended [?p, ?q] [], new_book, []) =
        (Yield (part_title ?p),
         Suspended [?q] ([] @ [make_chapter ucd_hangul sample_story ?p (ascii ''<p>Once</p>'')]),
         new_book, [] @ [Sent (Storytext (part_id ?p) sample_cookies), Yielded (part_title ?p)])"
    by blast
  from t sample_drain have r: "snd (snd sample_run) =
      [] @ concat (map (part_events sample_cookies) (parts sample_story))
         @ map (\<lambda>c. Added (Html c)) (toc (fst (snd sample_run))) @ [Added EpubNcx, Added EpubNav]"
    and m: "map title (toc (fst (snd sample_run))) = map part_title (parts sample_story)"
    by blast+
  show ?thesis unfolding ps a using r m by (simp add: ps part_events_def)
qed

text \<open>
  When the title of the first part is yielded, the chapter of that part is already the
  one entry of \<^verbatim>\<open>chapters\<close>, which was empty before: \<^verbatim>\<open>chapters.append(chapter)\<close> comes
  before \<^verbatim>\<open>yield title\<close>.
\<close>

theorem title_yielded_before_append_counterexample:
  "fst (anext ucd_hangul (always 200) sample_story sample_cookies
          (add_chapters sample_story, new_book, [])) = Yield (ascii ''Chapter 1: The Start'') \<and>
   chapters_of (add_chapters sample_story) = [] \<and>
   map title (chapters_of (fst (snd (anext ucd_hangul (always 200) sample_story sample_cookies
          (add_chapters sample_story, new_book, []))))) = [ascii ''Chapter 1: The Start'']"
  by (simp add: add_chapters_def sample_story_def fetch_part_content_def send_def always_def reply_def
      ok_def make_chapter_def)

text \<open>
  C7. A run to the end over a story of N parts yields exactly N titles, the titles of
  the parts in the order of the parts: these are what the consumer receives, and what
  the run adds to the yields of the history.
\<close>

theorem progress_events_are_titles:
  "drain U net data cookies (add_chapters data, b, h) = (Inr ts, b', h') \<Longrightarrow>
     ts = map part_title (parts data) \<and> length ts = length (parts data) \<and>
     yielded h' = yielded h @ map part_title (parts data)"
proof -
  assume run: "drain U net data cookies (add_chapters data, b, h) = (Inr ts, b', h')"
  have ts: "ts = map part_title (parts data)" by (rule drain_add_chapters(1)[OF run])
  have "yielded h' = yielded h @ map part_title (parts data)"
    unfolding drain_add_chapters(6)[OF run]
    by (simp add: yielded_append yielded_part_events yielded_Added)
  with ts show ?thesis by simp
qed

theorem progress_events_are_titles_witness:
  "fst sample_run = Inr [ascii ''Chapter 1: The Start'', ascii ''The_End''] \<and>
   length (parts sample_story) = 2 \<and>
   yielded (snd (snd sample_run)) = [ascii ''Chapter 1: The Start'', ascii ''The_End'']"
  using progress_events_are_titles[OF sample_drain] sample_first
  by (simp add: sample_story_def)

lemma refused_first:
  "fst (drain ucd_hangul second_part_refused sample_story sample_cookies
          (add_chapters sample_story, new_book, [])) =
     Inl (ValueError [Str (ascii ''Status Code:''), Num 500])"
  by (simp add: add_chapters_def drain_Cons drain_Nil fetch_part_content_def net_defs)

lemma one_item_first:
  "fst (resume ucd_hangul (always 200) sample_story sample_cookies 1
          (add_chapters sample_story, new_book, [])) = [Yield (ascii ''Chapter 1: The Start'')]"
  by (simp add: add_chapters_def fetch_part_content_def net_defs)

text \<open>
  C10. The book changes only in the code after the loop. If a fetch raises, the run
  ends with that error and the book is the book the run started with, and no item has
  been added. The same holds for a consumer that leaves before the generator has
  stopped, however many titles it has received. In a run to the end every item is added
  after the last part has been fetched and its title yielded.
\<close>

theorem chapters_attached_only_at_end:
  "(drain U net data cookies (add_chapters data, b, h) = (Inl e, b', h') \<longrightarrow>
      b' = b \<and> added h' = added h) \<and>
   (resume U net data cookies n (add_chapters data, b, h) = (os, g, b'', h'')
      \<and> StopAsyncIteration \<notin> set os \<longrightarrow> b'' = b \<and> added h'' = added h) \<and>
   (drain U net data cookies (add_chapters data, b, h) = (Inr ts, b', h') \<longrightarrow>
      h' = (h @ concat (map (part_events cookies) (parts data)))
             @ map (\<lambda>c. Added (Html c)) (toc b') @ [Added EpubNcx, Added EpubNav] \<and>
      added (h @ concat (map (part_events cookies) (parts data))) = added h)"
proof (intro conjI impI)
  assume "drain U net data cookies (add_chapters data, b, h) = (Inl e, b', h')"
  then have "b' = b \<and> added h' = added h"
    unfolding add_chapters_def by (rule drain_failure)
  then show "b' = b" and "added h' = added h" by simp_all
next
  assume a: "resume U net data cookies n (add_chapters data, b, h) = (os, g, b'', h'')
      \<and> StopAsyncIteration \<notin> set os"
  then have "b'' = b \<and> added h'' = added h"
    unfolding add_chapters_def using resume_unfinished by blast
  then show "b'' = b" and "added h'' = added h" by simp_all
next
  assume run: "drain U net data cookies (add_chapters data, b, h) = (Inr ts, b', h')"
  show "h' = (h @ concat (map (part_events cookies) (parts data)))
             @ map (\<lambda>c. Added (Html c)) (toc b') @ [Added EpubNcx, Added EpubNav]"
    using drain_add_chapters(6)[OF run] by simp
  show "added (h @ concat (map (part_events cookies) (parts data))) = added h"
    by (simp add: added_append added_part_events)
qed

theorem chapters_attached_only_at_end_witness:
  "fst (drain ucd_hangul second_part_refused sample_story sample_cookies
          (add_chapters sample_story, new_book, [])) =
     Inl (ValueError [Str (ascii ''Status Code:''), Num 500]) \<and>
   fst (snd (drain ucd_hangul second_part_refused sample_story sample_cookies
          (add_chapters sample_story, new_book, []))) = new_book \<and>
   added (snd (snd (drain ucd_hangul second_part_refused sample_story sample_cookies
          (add_chapters sample_story, new_book, [])))) = [] \<and>
   fst (resume ucd_hangul (always 200) sample_story sample_cookies 1
          (add_chapters sample_story, new_book, [])) = [Yield (ascii ''Chapter 1: The Start'')] \<and>
   fst (snd (snd (resume ucd_hangul (always 200) sample_story sample_cookies 1
          (add_chapters sample_story, new_book, [])))) = new_book \<and>
   items new_book = []"
proof -
  let ?d = "drain ucd_hangul second_part_refused sample_story sample_cookies
          (add_chapters sample_story, new_book, [])"
  let ?r = "resume ucd_hangul (always 200) sample_story sample_cookies 1
          (add_chapters sample_story, new_book, [])"
  have d: "?d = (Inl (ValueError [Str (ascii ''Status Code:''), Num 500]), fst (snd ?d), snd (snd ?d))"
    using refused_first by (metis prod.collapse)
  have r: "?r = ([Yield (ascii ''Chapter 1: The Start'')], fst (snd ?r), fst (snd (snd ?r)),
      snd (snd (snd ?r)))"
    using one_item_first by (metis prod.collapse)
  note t = chapters_attached_only_at_end[where U = ucd_hangul and data = sample_story
      and cookies = sample_cookies and b = new_book and h = "[]"]
  from t[where net = second_part_refused] d
  have 1: "fst (snd ?d) = new_book \<and> added (snd (snd ?d)) = added []" by blast
  have "StopAsyncIteration \<notin> set [Yield (ascii ''Chapter 1: The Start'')]" by simp
  with t[where net = "always 200" and n = 1] r
  have 2: "fst (snd (snd ?r)) = new_book" by blast
  show ?thesis using 1 2 refused_first one_item_first by (simp add: new_book_def)
qed

end
